theory Spec2Isabelle
  imports Main "HOL-Library.Word"
begin

unbundle bit_operations_syntax

section \<open>The tiny serial driver (src/tty/tiny_serial.c)\<close>

text \<open>
  The driver is embedded function by function. A C pointer is modelled by the object it
  points to, wrapped in \<open>option\<close>, with \<open>None\<close> for the NULL pointer; dereferencing NULL
  is the fault \<open>Null_deref\<close>. Calls into the kernel (timer, tty flip buffer, serial core,
  allocator) are recorded, in program order and with their arguments, as a list of
  events returned next to the new state. Messages written with printk, pr_info and
  pr_notice are not part of the model.
\<close>

subsection \<open>Kernel constants the driver uses but does not define\<close>

text \<open>
  \<open>UART_XMIT_SIZE\<close> (the size of the circular transmit buffer, a power of two),
  \<open>WAKEUP_CHARS\<close> (the low-water mark) and \<open>HZ\<close> (scheduler ticks per second) come from
  kernel headers. They are parameters of the model.
\<close>

record kconsts =
  UART_XMIT_SIZE :: "32 word"
  WAKEUP_CHARS :: "32 word"
  HZ :: "64 word"

definition DELAY_TIME :: "kconsts \<Rightarrow> 64 word" where
  \<comment> \<open>\<open>#define DELAY_TIME HZ * 2\<close>\<close>
  "DELAY_TIME k = HZ k * 2"

definition TINY_DATA_CHARACTER :: "8 word" where
  \<comment> \<open>\<open>#define TINY_DATA_CHARACTER 't'\<close>\<close>
  "TINY_DATA_CHARACTER = of_char (CHR ''t'')"

definition ENOMEM :: int where
  "ENOMEM = 12"

subsection \<open>Data\<close>

text \<open>
  \<open>struct circ_buf\<close>: \<open>head\<close> is the index the producer writes at, \<open>tail\<close> the index the
  consumer reads at; both are C \<open>int\<close>s.
\<close>

record circ_buf =
  buf :: "8 word list"
  head :: "32 word"
  tail :: "32 word"

text \<open>\<open>struct tty_struct\<close>, of which the driver reads the \<open>port\<close> pointer only.\<close>

record tty_struct =
  tty_port :: nat

text \<open>\<open>struct uart_state\<close>: the transmit buffer \<open>xmit\<close> and the pointer \<open>port.tty\<close>.\<close>

record uart_state =
  xmit :: circ_buf
  port_tty :: "tty_struct option"

text \<open>
  \<open>struct uart_port\<close>. The field \<open>tx_stopped\<close> holds what the serial core's inline
  \<open>uart_tx_stopped(port)\<close> answers for this port.
\<close>

record uart_port =
  x_char :: "8 word"
  fifosize :: "32 word"
  icount_tx :: "32 word"
  tx_stopped :: bool
  state :: "uart_state option"

datatype timer_fn = Fn_tiny_timer | Fn_other nat

text \<open>
  \<open>struct timer_list\<close>. \<open>pending\<close> is what \<open>timer_pending\<close> reads: the timer is queued
  and will fire at \<open>expires\<close>.
\<close>

record timer_list =
  expires :: "64 word"
  data :: "64 word"
  timer_function :: timer_fn
  pending :: bool

text \<open>
  The driver's only global, \<open>static struct timer_list *timer\<close>, together with the
  kernel's tick counter \<open>jiffies\<close>.
\<close>

record driver =
  timer :: "timer_list option"
  jiffies :: "64 word"

datatype fault = Null_deref

datatype event =
    Kmalloc
  | Kfree "timer_list option"
  | Init_timer
  | Add_timer "64 word"
  | Del_timer
  | Tty_insert_flip_char nat "8 word" "8 word"
  | Tty_flip_buffer_push nat
  | Uart_write_wakeup
  | Uart_remove_one_port
  | Uart_unregister_driver

subsection \<open>Serial core helpers on the circular buffer\<close>

definition uart_circ_empty :: "circ_buf \<Rightarrow> bool" where
  \<comment> \<open>\<open>((circ)->head == (circ)->tail)\<close>\<close>
  "uart_circ_empty c = (head c = tail c)"

definition uart_circ_chars_pending :: "kconsts \<Rightarrow> circ_buf \<Rightarrow> 32 word" where
  \<comment> \<open>\<open>CIRC_CNT(head, tail, UART_XMIT_SIZE)\<close>, that is \<open>(head - tail) & (size - 1)\<close>\<close>
  "uart_circ_chars_pending k c = (head c - tail c) AND (UART_XMIT_SIZE k - 1)"

subsection \<open>Transmit path\<close>

definition tiny_stop_tx :: "uart_port \<Rightarrow> uart_port" where
  \<comment> \<open>the body only logs its own name\<close>
  "tiny_stop_tx p = p"

text \<open>
  The \<open>do ... while (--count > 0)\<close> loop of \<open>tiny_tx_chars\<close>, on the buffer and the
  counter \<open>icount.tx\<close>. \<open>count\<close> starts at \<open>fifosize >> 1\<close>, which is between 0 and
  \<open>2^31 - 1\<close>, and is decremented at most down to \<open>-1\<close>, so the C \<open>int\<close> never overflows.
\<close>

function tx_loop :: "kconsts \<Rightarrow> int \<Rightarrow> circ_buf \<Rightarrow> 32 word \<Rightarrow> circ_buf \<times> 32 word" where
  "tx_loop k count xm tx =
     (let xm1 = xm\<lparr>tail := (tail xm + 1) AND (UART_XMIT_SIZE k - 1)\<rparr>;
          tx1 = tx + 1
      in if uart_circ_empty xm1 then (xm1, tx1)
         else if count - 1 > 0 then tx_loop k (count - 1) xm1 tx1
         else (xm1, tx1))"
  by pat_completeness auto
termination
  by (relation "measure (\<lambda>(k, count, xm, tx). nat count)") auto

definition tiny_tx_chars :: "kconsts \<Rightarrow> uart_port \<Rightarrow> fault + (uart_port \<times> event list)" where
  "tiny_tx_chars k p =
     (if x_char p \<noteq> 0 then
        Inr (p\<lparr>icount_tx := icount_tx p + 1, x_char := 0\<rparr>, [])
      else
        (case state p of
           None \<Rightarrow> Inl Null_deref
         | Some st \<Rightarrow>
             if uart_circ_empty (xmit st) \<or> tx_stopped p then Inr (tiny_stop_tx p, [])
             else
               (case tx_loop k (uint (drop_bit 1 (fifosize p))) (xmit st) (icount_tx p) of
                  (xm, tx) \<Rightarrow>
                    let p1 = p\<lparr>icount_tx := tx, state := Some (st\<lparr>xmit := xm\<rparr>)\<rparr>;
                        ev = (if uart_circ_chars_pending k xm < WAKEUP_CHARS k
                              then [Uart_write_wakeup] else [])
                    in Inr (if uart_circ_empty xm then tiny_stop_tx p1 else p1, ev))))"

subsection \<open>Timer callback\<close>

definition add_timer :: "timer_list \<Rightarrow> timer_list \<times> event" where
  \<comment> \<open>queues the timer to fire at its \<open>expires\<close>\<close>
  "add_timer t = (t\<lparr>pending := True\<rparr>, Add_timer (expires t))"

definition tiny_timer ::
  "kconsts \<Rightarrow> driver \<Rightarrow> uart_port option \<Rightarrow> fault + (driver \<times> uart_port option \<times> event list)" where
  "tiny_timer k d p =
     (case p of
        None \<Rightarrow> Inr (d, p, [])
      | Some prt \<Rightarrow>
          (case state prt of
             None \<Rightarrow> Inr (d, p, [])
           | Some st \<Rightarrow>
               (case port_tty st of
                  None \<Rightarrow> Inr (d, p, [])
                | Some tty \<Rightarrow>
                    let ev1 = [Tty_insert_flip_char (tty_port tty) TINY_DATA_CHARACTER 0,
                               Tty_flip_buffer_push (tty_port tty)]
                    in (case timer d of
                          None \<Rightarrow> Inl Null_deref
                        | Some tm \<Rightarrow>
                            (case add_timer (tm\<lparr>expires := jiffies d + DELAY_TIME k\<rparr>) of
                               (tm1, e) \<Rightarrow>
                                 (case tiny_tx_chars k prt of
                                    Inl f \<Rightarrow> Inl f
                                  | Inr (prt1, ev2) \<Rightarrow>
                                      Inr (d\<lparr>timer := Some tm1\<rparr>, Some prt1,
                                           ev1 @ [e] @ ev2)))))))"

definition tiny_tx_empty :: "uart_port \<Rightarrow> 32 word" where
  "tiny_tx_empty p = 0"

subsection \<open>Startup, shutdown, module exit\<close>

definition init_timer :: "timer_list \<Rightarrow> timer_list \<times> event" where
  \<comment> \<open>resets the timer's queue entry: it is not pending afterwards\<close>
  "init_timer t = (t\<lparr>pending := False\<rparr>, Init_timer)"

definition del_timer :: "timer_list option \<Rightarrow> fault + (timer_list \<times> event)" where
  \<comment> \<open>reads the timer's queue entry through the pointer, then takes it off the queue\<close>
  "del_timer t = (case t of None \<Rightarrow> Inl Null_deref
                  | Some tm \<Rightarrow> Inr (tm\<lparr>pending := False\<rparr>, Del_timer))"

text \<open>
  \<open>tiny_startup\<close>. \<open>alloc\<close> is what \<open>kmalloc\<close> answers if it is called: \<open>None\<close> when
  the allocation fails, otherwise the fresh object with whatever contents it has.
  \<open>paddr\<close> is the address of the port, \<open>(unsigned long)port\<close>.
\<close>

definition tiny_startup ::
  "kconsts \<Rightarrow> timer_list option \<Rightarrow> 64 word \<Rightarrow> driver \<Rightarrow> driver \<times> int \<times> event list" where
  "tiny_startup k alloc paddr d =
     (case (if timer d = None then (alloc, [Kmalloc]) else (timer d, [])) of
        (None, ev0) \<Rightarrow> (d\<lparr>timer := None\<rparr>, - ENOMEM, ev0)
      | (Some tm, ev0) \<Rightarrow>
          (case init_timer tm of
             (tm1, e1) \<Rightarrow>
               (case add_timer (tm1\<lparr>data := paddr,
                                     expires := jiffies d + DELAY_TIME k,
                                     timer_function := Fn_tiny_timer\<rparr>) of
                  (tm2, e2) \<Rightarrow> (d\<lparr>timer := Some tm2\<rparr>, 0, ev0 @ [e1, e2]))))"

definition tiny_shutdown :: "driver \<Rightarrow> fault + (driver \<times> event list)" where
  "tiny_shutdown d =
     (case del_timer (timer d) of
        Inl f \<Rightarrow> Inl f
      | Inr (tm, e) \<Rightarrow> Inr (d\<lparr>timer := Some tm\<rparr>, [e]))"

definition tiny_exit :: "driver \<Rightarrow> driver \<times> event list" where
  "tiny_exit d =
     (d, [Uart_remove_one_port, Uart_unregister_driver]
         @ (if timer d = None then [Kfree (timer d)] else []))"

subsection \<open>Concrete configurations\<close>

text \<open>
  The configuration of the specification's scenario: a transmit buffer of 16 bytes, a
  low-water mark of 4, and 100 ticks per second.
\<close>

definition scenario_consts :: kconsts where
  "scenario_consts = \<lparr>UART_XMIT_SIZE = 16, WAKEUP_CHARS = 4, HZ = 100\<rparr>"

text \<open>
  An open port with the given fifosize, buffer indices and transmit counter, nothing in
  \<open>x_char\<close>, transmission not stopped, and a tty attached.
\<close>

definition scenario_port :: "32 word \<Rightarrow> 32 word \<Rightarrow> 32 word \<Rightarrow> 32 word \<Rightarrow> uart_port" where
  "scenario_port f h t tx =
     \<lparr>x_char = 0, fifosize = f, icount_tx = tx, tx_stopped = False,
      state = Some \<lparr>xmit = \<lparr>buf = replicate 16 0, head = h, tail = t\<rparr>,
                    port_tty = Some \<lparr>tty_port = 0\<rparr>\<rparr>\<rparr>"

text \<open>A timer object as \<open>kmalloc\<close> may hand it out: not queued, fields not yet set.\<close>

definition fresh_timer :: timer_list where
  "fresh_timer = \<lparr>expires = 0, data = 0, timer_function = Fn_other 0, pending = False\<rparr>"

text \<open>The driver right after module load (the static pointer is NULL), at tick 1000.\<close>

definition loaded_driver :: driver where
  "loaded_driver = \<lparr>timer = None, jiffies = 1000\<rparr>"

text \<open>The driver after a successful \<open>tiny_startup\<close> for the port at address 4096.\<close>

definition started_driver :: driver where
  "started_driver =
     \<lparr>timer = Some \<lparr>expires = 1200, data = 4096, timer_function = Fn_tiny_timer,
                     pending = True\<rparr>,
      jiffies = 1000\<rparr>"

section \<open>Arithmetic of the circular buffer\<close>

lemma unat_pow2: "n < 32 \<Longrightarrow> unat ((2::32 word) ^ n) = 2 ^ n"
  by transfer (simp add: take_bit_nat_eq_self_iff nat_take_bit_eq take_bit_int_eq_self_iff nat_power_eq)

lemma pow2_le: "n < 32 \<Longrightarrow> (2::nat) ^ n \<le> 2 ^ 31"
  by (rule power_increasing) simp_all

lemma unat_and_size:
  fixes x :: "32 word"
  shows "unat (x AND (2 ^ n - 1)) = unat x mod 2 ^ n"
proof -
  have "x AND (2 ^ n - 1) = take_bit n x"
    by (simp add: mask_eq_exp_minus_1 take_bit_eq_mask)
  then have "unat (x AND (2 ^ n - 1)) = take_bit n (unat x)"
    by (simp only: unsigned_take_bit_eq)
  then show ?thesis by (simp add: take_bit_eq_mod)
qed

lemma circ_cnt_nat:
  fixes H T N :: nat
  assumes "H < N" "T < N"
  shows "(H + N - T) mod N = (if T \<le> H then H - T else H + N - T)"
proof (cases "T \<le> H")
  case True
  then have "H + N - T = (H - T) + N" by simp
  then have "(H + N - T) mod N = (H - T) mod N" by simp
  with True assms show ?thesis by simp
next
  case False
  with assms show ?thesis by simp
qed

lemma in_range_unat:
  fixes x :: "32 word"
  assumes "n < 32"
  shows "x < 2 ^ n \<longleftrightarrow> unat x < 2 ^ n"
  using assms by (simp only: word_less_nat_alt unat_pow2)

lemma unat_succ_in_range:
  fixes t :: "32 word"
  assumes "n < 32" "unat t < 2 ^ n"
  shows "unat (t + 1) = unat t + 1"
proof -
  have "(2::nat) ^ n \<le> 2 ^ 31" using assms(1) by (rule pow2_le)
  with assms(2) have "unat t + 1 < 2 ^ 32" by simp
  then show ?thesis by (simp add: unat_plus_if')
qed

lemma unat_tail_step:
  fixes t :: "32 word"
  assumes "n < 32" "unat t < 2 ^ n"
  shows "unat ((t + 1) AND (2 ^ n - 1)) = (unat t + 1) mod 2 ^ n"
  using assms by (simp only: unat_and_size unat_succ_in_range)

lemma unat_circ_cnt:
  fixes h t :: "32 word"
  assumes "n < 32" "unat h < 2 ^ n" "unat t < 2 ^ n"
  shows "unat ((h - t) AND (2 ^ n - 1)) = (unat h + 2 ^ n - unat t) mod 2 ^ n"
proof -
  have le: "(2::nat) ^ n \<le> 2 ^ 31" using assms(1) by (rule pow2_le)
  show ?thesis
  proof (cases "unat t \<le> unat h")
    case True
    then have "unat (h - t) = unat h - unat t" by (simp add: unat_sub_if_size)
    moreover have "unat h - unat t < 2 ^ n" using assms(2) by simp
    ultimately have "unat ((h - t) AND (2 ^ n - 1)) = unat h - unat t"
      by (simp only: unat_and_size mod_less)
    with True assms show ?thesis by (simp only: circ_cnt_nat if_True)
  next
    case False
    then have "unat (h - t) = unat h + 2 ^ 32 - unat t"
      by (simp add: unat_sub_if_size word_size)
    also have "\<dots> = (unat h + 2 ^ n - unat t) + (2 ^ 32 - 2 ^ n)"
      using le assms(3) by simp
    also have "(2::nat) ^ 32 - 2 ^ n = 2 ^ n * (2 ^ (32 - n) - 1)"
    proof -
      have "(2::nat) ^ 32 = 2 ^ n * 2 ^ (32 - n)"
        using assms(1) by (simp only: power_add [symmetric]) simp
      then show ?thesis by (simp add: algebra_simps)
    qed
    finally have "unat (h - t) mod 2 ^ n = (unat h + 2 ^ n - unat t) mod 2 ^ n"
      by simp
    then show ?thesis by (simp only: unat_and_size)
  qed
qed


lemma circ_step_nat:
  fixes H T N :: nat
  assumes "H < N" "T < N" "H \<noteq> T"
  shows "1 \<le> (H + N - T) mod N"
    and "(H + N - (T + 1) mod N) mod N = (H + N - T) mod N - 1"
    and "H = (T + 1) mod N \<longleftrightarrow> (H + N - T) mod N = 1"
proof -
  define T1 where "T1 = (T + 1) mod N"
  have T1: "T1 = (if T + 1 < N then T + 1 else 0)"
  proof (cases "T + 1 < N")
    case True
    then show ?thesis by (simp add: T1_def)
  next
    case False
    with assms(2) have "T + 1 = N" by linarith
    then show ?thesis by (simp add: T1_def)
  qed
  have T1N: "T1 < N" using assms(2) by (simp add: T1_def)
  have P: "(H + N - T) mod N = (if T \<le> H then H - T else H + N - T)"
    using assms(1,2) by (rule circ_cnt_nat)
  have P1: "(H + N - T1) mod N = (if T1 \<le> H then H - T1 else H + N - T1)"
    using assms(1) T1N by (rule circ_cnt_nat)
  show "1 \<le> (H + N - T) mod N"
    unfolding P using assms by auto
  show "(H + N - (T + 1) mod N) mod N = (H + N - T) mod N - 1"
    unfolding T1_def [symmetric] P P1 using assms by (auto simp: T1 split: if_splits)
  show "H = (T + 1) mod N \<longleftrightarrow> (H + N - T) mod N = 1"
    unfolding T1_def [symmetric] P using assms by (auto simp: T1 split: if_splits)
qed

lemma min_max_step:
  fixes P :: nat and c :: int
  assumes "1 \<le> P" "0 < c - 1"
  shows "min P (max 1 (nat c)) = Suc (min (P - 1) (max 1 (nat (c - 1))))"
proof -
  have c: "max 1 (nat c) = nat c" "max 1 (nat (c - 1)) = nat c - 1"
    using assms(2) by (simp_all add: max_def nat_diff_distrib)
  show ?thesis unfolding c using assms by (simp add: min_def) arith
qed

declare tx_loop.simps [simp del]

lemma tx_loop_char:
  assumes sz: "UART_XMIT_SIZE k = 2 ^ n" and n: "n < 32"
  shows "unat (head xm) < 2 ^ n \<Longrightarrow> unat (tail xm) < 2 ^ n \<Longrightarrow> head xm \<noteq> tail xm \<Longrightarrow>
    \<exists>t'. tx_loop k c xm tx =
            (xm\<lparr>tail := t'\<rparr>,
             tx + of_nat (min ((unat (head xm) + 2 ^ n - unat (tail xm)) mod 2 ^ n) (max 1 (nat c))))
        \<and> unat t' = (unat (tail xm)
             + min ((unat (head xm) + 2 ^ n - unat (tail xm)) mod 2 ^ n) (max 1 (nat c))) mod 2 ^ n"
  using sz
proof (induction k c xm tx rule: tx_loop.induct)
  case (1 k c xm tx)
  let ?N = "(2::nat) ^ n"
  let ?H = "unat (head xm)" and ?T = "unat (tail xm)"
  let ?P = "(?H + ?N - ?T) mod ?N"
  let ?t1 = "(tail xm + 1) AND (2 ^ n - 1)"
  let ?xm1 = "xm\<lparr>tail := ?t1\<rparr>"
  have H: "?H < ?N" and T: "?T < ?N" and ne: "head xm \<noteq> tail xm" and sz: "UART_XMIT_SIZE k = 2 ^ n"
    using "1.prems" by simp_all
  have neN: "?H \<noteq> ?T" using ne by (simp add: word_unat_eq_iff)
  have T1: "unat ?t1 = (?T + 1) mod ?N" using n T by (rule unat_tail_step)
  have T1N: "unat ?t1 < ?N" by (simp add: T1)
  have P1: "1 \<le> ?P" using H T neN by (rule circ_step_nat(1))
  have Pstep: "(?H + ?N - unat ?t1) mod ?N = ?P - 1"
    unfolding T1 using H T neN by (rule circ_step_nat(2))
  have emp: "head xm = ?t1 \<longleftrightarrow> ?P = 1"
    using circ_step_nat(3) [OF H T neN] by (simp add: word_unat_eq_iff T1)
  have unf: "tx_loop k c xm tx =
      (if head xm = ?t1 then (?xm1, tx + 1)
       else if c - 1 > 0 then tx_loop k (c - 1) ?xm1 (tx + 1) else (?xm1, tx + 1))"
    by (subst tx_loop.simps) (simp add: Let_def uart_circ_empty_def sz)
  show ?case
  proof (cases "head xm = ?t1")
    case True
    then have "?P = 1" using emp by simp
    then have r: "min ?P (max 1 (nat c)) = 1" by simp
    show ?thesis
      unfolding r using True unf T1 by (intro exI [of _ ?t1]) simp
  next
    case False
    note notempty = this
    show ?thesis
    proof (cases "c - 1 > 0")
      case True
      have "\<exists>t'. tx_loop k (c - 1) ?xm1 (tx + 1) =
            (?xm1\<lparr>tail := t'\<rparr>,
             tx + 1 + of_nat (min ((unat (head ?xm1) + 2 ^ n - unat (tail ?xm1)) mod 2 ^ n) (max 1 (nat (c - 1)))))
        \<and> unat t' = (unat (tail ?xm1)
             + min ((unat (head ?xm1) + 2 ^ n - unat (tail ?xm1)) mod 2 ^ n) (max 1 (nat (c - 1)))) mod 2 ^ n"
        using "1.IH" [of ?xm1 "tx + 1"] notempty True H T1N sz
        by (simp add: uart_circ_empty_def)
      then obtain t' where
        eq: "tx_loop k (c - 1) ?xm1 (tx + 1) =
            (?xm1\<lparr>tail := t'\<rparr>, tx + 1 + of_nat (min (?P - 1) (max 1 (nat (c - 1)))))"
        and t': "unat t' = (unat ?t1 + min (?P - 1) (max 1 (nat (c - 1)))) mod ?N"
        using Pstep by auto
      have r: "min ?P (max 1 (nat c)) = Suc (min (?P - 1) (max 1 (nat (c - 1))))"
        using P1 True by (rule min_max_step)
      have "unat t' = (?T + Suc (min (?P - 1) (max 1 (nat (c - 1))))) mod ?N"
        unfolding t' T1 by (simp add: mod_add_left_eq)
      then show ?thesis
        unfolding r using unf notempty True eq by (intro exI [of _ t']) simp
    next
      case False
      then have "nat c \<le> 1" by arith
      then have "max 1 (nat c) = 1" by (simp add: max_def)
      then have r: "min ?P (max 1 (nat c)) = 1" using P1 by (simp add: min_def)
      show ?thesis
        unfolding r using False notempty unf T1 by (intro exI [of _ ?t1]) simp
    qed
  qed
qed

lemma circ_cnt_advance:
  fixes H T N r :: nat
  assumes "H < N" "T < N"
  shows "r \<le> (H + N - T) mod N \<Longrightarrow> (H + N - (T + r) mod N) mod N = (H + N - T) mod N - r"
proof (induction r)
  case 0
  with assms show ?case by simp
next
  case (Suc r)
  let ?Tr = "(T + r) mod N"
  have Tr: "?Tr < N" using assms(2) by simp
  have ih: "(H + N - ?Tr) mod N = (H + N - T) mod N - r" using Suc by simp
  have "H \<noteq> ?Tr"
  proof
    assume "H = ?Tr"
    then have "(H + N - ?Tr) mod N = 0" by simp
    with ih Suc.prems show False by simp
  qed
  with assms(1) Tr have "(H + N - (?Tr + 1) mod N) mod N = (H + N - ?Tr) mod N - 1"
    by (rule circ_step_nat(2))
  moreover have "(?Tr + 1) mod N = (T + Suc r) mod N"
    by (simp add: mod_Suc_eq)
  ultimately show ?case using ih by simp
qed

lemma count_of_fifosize: "nat (uint (drop_bit 1 (f :: 32 word))) = unat f div 2"
  by (simp add: unat_eq_nat_uint [symmetric] drop_bit_eq_div unat_div)

lemma drain_loop_result:
  assumes sz: "UART_XMIT_SIZE k = 2 ^ n" and n: "n < 32"
    and x: "x_char p = 0" and ns: "\<not> tx_stopped p" and st: "state p = Some st"
    and H: "unat (head (xmit st)) < 2 ^ n" and T: "unat (tail (xmit st)) < 2 ^ n"
    and ne: "head (xmit st) \<noteq> tail (xmit st)"
    and r: "r = min ((unat (head (xmit st)) + 2 ^ n - unat (tail (xmit st))) mod 2 ^ n)
                    (max 1 (unat (fifosize p) div 2))"
  shows "\<exists>t'. tiny_tx_chars k p =
            Inr (p\<lparr>icount_tx := icount_tx p + of_nat r,
                     state := Some (st\<lparr>xmit := (xmit st)\<lparr>tail := t'\<rparr>\<rparr>)\<rparr>,
                 if uart_circ_chars_pending k ((xmit st)\<lparr>tail := t'\<rparr>) < WAKEUP_CHARS k
                 then [Uart_write_wakeup] else [])
          \<and> unat t' = (unat (tail (xmit st)) + r) mod 2 ^ n"
proof -
  obtain t' where
    loop: "tx_loop k (uint (drop_bit 1 (fifosize p))) (xmit st) (icount_tx p) =
             ((xmit st)\<lparr>tail := t'\<rparr>, icount_tx p + of_nat r)"
    and t': "unat t' = (unat (tail (xmit st)) + r) mod 2 ^ n"
    using tx_loop_char [OF sz n H T ne, of "uint (drop_bit 1 (fifosize p))" "icount_tx p"]
    unfolding r count_of_fifosize by blast
  have "tiny_tx_chars k p =
            Inr (p\<lparr>icount_tx := icount_tx p + of_nat r,
                     state := Some (st\<lparr>xmit := (xmit st)\<lparr>tail := t'\<rparr>\<rparr>)\<rparr>,
                 if uart_circ_chars_pending k ((xmit st)\<lparr>tail := t'\<rparr>) < WAKEUP_CHARS k
                 then [Uart_write_wakeup] else [])"
    using x ns st ne
    by (simp add: tiny_tx_chars_def uart_circ_empty_def loop tiny_stop_tx_def Let_def
        del: One_nat_def)
  with t' show ?thesis by blast
qed

section \<open>Auxiliary facts about the driver functions\<close>

lemma tiny_tx_chars_total:
  assumes "state p = Some st"
  shows "\<exists>p' st'. state p' = Some st' \<and> port_tty st' = port_tty st \<and>
           tiny_tx_chars k p =
             Inr (p', if x_char p = 0 \<and> \<not> uart_circ_empty (xmit st) \<and> \<not> tx_stopped p
                         \<and> uart_circ_chars_pending k (xmit st') < WAKEUP_CHARS k
                      then [Uart_write_wakeup] else [])"
  using assms
  by (cases "tx_loop k (uint (drop_bit 1 (fifosize p))) (xmit st) (icount_tx p)")
     (auto simp: tiny_tx_chars_def tiny_stop_tx_def Let_def simp del: One_nat_def)

lemma timer_callback_eq:
  assumes st: "state prt = Some st" and tty: "port_tty st = Some tty"
    and tm: "timer d = Some tm" and tx: "tiny_tx_chars k prt = Inr (prt1, ev2)"
  shows "tiny_timer k d (Some prt) =
           Inr (d\<lparr>timer := Some (tm\<lparr>expires := jiffies d + HZ k * 2, pending := True\<rparr>)\<rparr>,
                Some prt1,
                [Tty_insert_flip_char (tty_port tty) TINY_DATA_CHARACTER 0,
                 Tty_flip_buffer_push (tty_port tty),
                 Add_timer (jiffies d + HZ k * 2)] @ ev2)"
  using assms by (simp add: tiny_timer_def add_timer_def DELAY_TIME_def Let_def)

lemma tiny_startup_eq:
  "tiny_startup k alloc paddr d =
     (case timer d of
        Some tm \<Rightarrow>
          (d\<lparr>timer := Some (tm\<lparr>pending := True, data := paddr,
                                 expires := jiffies d + HZ k * 2,
                                 timer_function := Fn_tiny_timer\<rparr>)\<rparr>,
           0, [Init_timer, Add_timer (jiffies d + HZ k * 2)])
      | None \<Rightarrow>
          (case alloc of
             None \<Rightarrow> (d, - 12, [Kmalloc])
           | Some tm \<Rightarrow>
               (d\<lparr>timer := Some (tm\<lparr>pending := True, data := paddr,
                                      expires := jiffies d + HZ k * 2,
                                      timer_function := Fn_tiny_timer\<rparr>)\<rparr>,
                0, [Kmalloc, Init_timer, Add_timer (jiffies d + HZ k * 2)])))"
  by (simp add: tiny_startup_def init_timer_def add_timer_def DELAY_TIME_def ENOMEM_def
      split: option.splits)

lemma pending_unat:
  assumes sz: "UART_XMIT_SIZE k = 2 ^ n" and n: "n < 32"
    and h: "head xm < UART_XMIT_SIZE k" and t: "tail xm < UART_XMIT_SIZE k"
  shows "unat (uart_circ_chars_pending k xm)
           = (unat (head xm) + 2 ^ n - unat (tail xm)) mod 2 ^ n"
proof -
  have H: "unat (head xm) < 2 ^ n" using h n unfolding sz by (simp only: in_range_unat)
  have T: "unat (tail xm) < 2 ^ n" using t n unfolding sz by (simp only: in_range_unat)
  show ?thesis
    unfolding uart_circ_chars_pending_def sz using n H T by (rule unat_circ_cnt)
qed

lemma drain_empty_case:
  assumes x: "x_char p = 0" and st: "state p = Some st"
    and e: "head (xmit st) = tail (xmit st)"
  shows "tiny_tx_chars k p = Inr (p, [])"
  using x st e by (simp add: tiny_tx_chars_def uart_circ_empty_def tiny_stop_tx_def)

section \<open>Properties\<close>

text \<open>
  C1 (as amended): a call of \<open>tiny_tx_chars\<close> on an open port signals wakeup exactly
  when its drain loop ran (no \<open>x_char\<close> pending, buffer not empty, transmission not
  stopped) and the number of bytes pending after the drain is below \<open>WAKEUP_CHARS\<close>,
  whether or not the number was already below the mark before the drain. It signals
  at most once per call.
\<close>

theorem tiny_tx_chars_wakeup:
  assumes "state p = Some st"
  shows "\<exists>p' st'. state p' = Some st' \<and>
           tiny_tx_chars k p =
             Inr (p', if x_char p = 0 \<and> \<not> uart_circ_empty (xmit st) \<and> \<not> tx_stopped p
                         \<and> uart_circ_chars_pending k (xmit st') < WAKEUP_CHARS k
                      then [Uart_write_wakeup] else [])"
  using tiny_tx_chars_total [OF assms, of k] by blast

theorem tiny_tx_chars_wakeup_witness:
  "\<exists>p' st'. state p' = Some st' \<and>
      tiny_tx_chars scenario_consts (scenario_port 16 10 0 0) =
        Inr (p', if uart_circ_chars_pending scenario_consts (xmit st') < 4
                 then [Uart_write_wakeup] else [])"
  using tiny_tx_chars_wakeup
    [of "scenario_port 16 10 0 0" "\<lparr>xmit = \<lparr>buf = replicate 16 0, head = 10, tail = 0\<rparr>,
                    port_tty = Some \<lparr>tty_port = 0\<rparr>\<rparr>" scenario_consts]
  by (simp add: scenario_port_def scenario_consts_def uart_circ_empty_def)

text \<open>
  The scenario of the specification: 10 bytes queued, fifosize 16. The first firing
  drains 8 bytes and signals wakeup with 2 bytes left, which is below the mark of 4. The
  second firing drains the last 2 bytes and signals wakeup again.
\<close>

theorem wakeup_scenario_counterexample:
  "tiny_tx_chars scenario_consts (scenario_port 16 10 0 0) =
     Inr (scenario_port 16 10 8 8, [Uart_write_wakeup])
   \<and> uart_circ_chars_pending scenario_consts
        \<lparr>buf = replicate 16 0, head = 10, tail = 8\<rparr> = 2
   \<and> (2 :: 32 word) < WAKEUP_CHARS scenario_consts
   \<and> tiny_tx_chars scenario_consts (scenario_port 16 10 8 8) =
     Inr (scenario_port 16 10 10 10, [Uart_write_wakeup])"
  by (simp add: tiny_tx_chars_def scenario_port_def scenario_consts_def uart_circ_empty_def
      uart_circ_chars_pending_def tiny_stop_tx_def tx_loop.simps Let_def)

text \<open>
  C2 (as amended): with the buffer size a power of two and both indices inside the
  buffer, a call of \<open>tiny_tx_chars\<close> with no \<open>x_char\<close> pending and transmission not
  stopped removes \<open>r\<close> bytes, where \<open>r\<close> is the smaller of the number of bytes pending
  and \<open>max 1 (fifosize div 2)\<close>. The bound comes from \<open>fifosize\<close>, not from the buffer
  size. The consuming index \<open>tail\<close> advances by \<open>r\<close> modulo the buffer size, the counter
  \<open>icount.tx\<close> grows by \<open>r\<close> (modulo \<open>2^32\<close>), \<open>head\<close> and the buffer contents are
  unchanged, and \<open>r\<close> bytes fewer are pending afterwards: the loop stops when the buffer
  is empty and never moves \<open>tail\<close> past \<open>head\<close>.
\<close>

theorem tiny_tx_chars_drain:
  assumes sz: "UART_XMIT_SIZE k = 2 ^ n" and n: "n < 32"
    and x: "x_char p = 0" and ns: "\<not> tx_stopped p" and st: "state p = Some st"
    and h: "head (xmit st) < UART_XMIT_SIZE k" and t: "tail (xmit st) < UART_XMIT_SIZE k"
    and pend: "pend = unat (uart_circ_chars_pending k (xmit st))"
    and r: "r = min pend (max 1 (unat (fifosize p) div 2))"
  shows "\<exists>p' st' ev. tiny_tx_chars k p = Inr (p', ev) \<and> state p' = Some st'
      \<and> head (xmit st') = head (xmit st) \<and> buf (xmit st') = buf (xmit st)
      \<and> unat (tail (xmit st')) = (unat (tail (xmit st)) + r) mod unat (UART_XMIT_SIZE k)
      \<and> icount_tx p' = icount_tx p + of_nat r
      \<and> unat (uart_circ_chars_pending k (xmit st')) = pend - r
      \<and> r \<le> pend \<and> r \<le> max 1 (unat (fifosize p) div 2)"
proof -
  let ?N = "(2::nat) ^ n"
  let ?H = "unat (head (xmit st))" and ?T = "unat (tail (xmit st))"
  have H: "?H < ?N" using h n unfolding sz by (simp only: in_range_unat)
  have T: "?T < ?N" using t n unfolding sz by (simp only: in_range_unat)
  have N: "unat (UART_XMIT_SIZE k) = ?N" unfolding sz using n by (rule unat_pow2)
  have P: "pend = (?H + ?N - ?T) mod ?N"
    unfolding pend using sz n h t by (rule pending_unat)
  have rb: "r \<le> pend" "r \<le> max 1 (unat (fifosize p) div 2)"
    unfolding r by simp_all
  show ?thesis
  proof (cases "head (xmit st) = tail (xmit st)")
    case True
    have p0: "pend = 0" unfolding P using True by simp
    have r0: "r = 0" unfolding r p0 by simp
    have eq: "tiny_tx_chars k p = Inr (p, [])"
      using x st True by (rule drain_empty_case)
    have tl: "unat (tail (xmit st)) = (unat (tail (xmit st)) + r) mod unat (UART_XMIT_SIZE k)"
      unfolding r0 N using T by simp
    have tx: "icount_tx p = icount_tx p + of_nat r" unfolding r0 by simp
    have af: "unat (uart_circ_chars_pending k (xmit st)) = pend - r"
      unfolding r0 pend by simp
    show ?thesis
      using eq st tl tx af rb by blast
  next
    case False
    obtain t' where
      eq: "tiny_tx_chars k p =
            Inr (p\<lparr>icount_tx := icount_tx p + of_nat r,
                     state := Some (st\<lparr>xmit := (xmit st)\<lparr>tail := t'\<rparr>\<rparr>)\<rparr>,
                 if uart_circ_chars_pending k ((xmit st)\<lparr>tail := t'\<rparr>) < WAKEUP_CHARS k
                 then [Uart_write_wakeup] else [])"
      and t': "unat t' = (?T + r) mod ?N"
      using drain_loop_result [OF sz n x ns st H T False r [unfolded P]] by blast
    let ?st' = "st\<lparr>xmit := (xmit st)\<lparr>tail := t'\<rparr>\<rparr>"
    let ?p' = "p\<lparr>icount_tx := icount_tx p + of_nat r, state := Some ?st'\<rparr>"
    have T': "unat t' < ?N" unfolding t' by simp
    have rle: "r \<le> (?H + ?N - ?T) mod ?N" using rb(1) unfolding P .
    have "unat (uart_circ_chars_pending k (xmit ?st')) = (?H + ?N - unat t') mod ?N"
      unfolding uart_circ_chars_pending_def sz using unat_circ_cnt [OF n H T'] by simp
    also have "\<dots> = pend - r"
      unfolding t' P using H T rle by (rule circ_cnt_advance)
    finally have af: "unat (uart_circ_chars_pending k (xmit ?st')) = pend - r" .
    have s1: "state ?p' = Some ?st'" by simp
    have s2: "head (xmit ?st') = head (xmit st)" "buf (xmit ?st') = buf (xmit st)" by simp_all
    have s3: "unat (tail (xmit ?st')) = (?T + r) mod unat (UART_XMIT_SIZE k)"
      unfolding N using t' by simp
    have s4: "icount_tx ?p' = icount_tx p + of_nat r" by simp
    show ?thesis
      using eq s1 s2 s3 s4 af rb by blast
  qed
qed

theorem tiny_tx_chars_drain_witness:
  "\<exists>p' st' ev. tiny_tx_chars scenario_consts (scenario_port 16 10 0 0) = Inr (p', ev)
      \<and> state p' = Some st'
      \<and> head (xmit st') = 10 \<and> buf (xmit st') = replicate 16 0
      \<and> unat (tail (xmit st')) = 8
      \<and> icount_tx p' = 8
      \<and> unat (uart_circ_chars_pending scenario_consts (xmit st')) = 2"
proof -
  let ?st = "\<lparr>xmit = \<lparr>buf = replicate 16 0, head = 10, tail = 0\<rparr>,
              port_tty = Some \<lparr>tty_port = 0\<rparr>\<rparr>"
  have sz: "UART_XMIT_SIZE scenario_consts = 2 ^ 4" by (simp add: scenario_consts_def)
  have n: "(4::nat) < 32" by simp
  have x: "x_char (scenario_port 16 10 0 0) = 0" by (simp add: scenario_port_def)
  have ns: "\<not> tx_stopped (scenario_port 16 10 0 0)" by (simp add: scenario_port_def)
  have st: "state (scenario_port 16 10 0 0) = Some ?st" by (simp add: scenario_port_def)
  have h: "head (xmit ?st) < UART_XMIT_SIZE scenario_consts" by (simp add: scenario_consts_def)
  have t: "tail (xmit ?st) < UART_XMIT_SIZE scenario_consts" by (simp add: scenario_consts_def)
  have pend: "(10::nat) = unat (uart_circ_chars_pending scenario_consts (xmit ?st))"
    by (simp add: scenario_consts_def uart_circ_chars_pending_def)
  have r: "(8::nat) = min 10 (max 1 (unat (fifosize (scenario_port 16 10 0 0)) div 2))"
    by (simp add: scenario_port_def)
  show ?thesis
    using tiny_tx_chars_drain [OF sz n x ns st h t pend r]
    by (simp add: scenario_consts_def scenario_port_def)
qed

text \<open>
  With a buffer of 16 bytes, 15 of them pending, and a fifosize of 32, one call removes
  all 15 bytes, more than half the buffer size.
\<close>

theorem drain_bound_counterexample:
  "tiny_tx_chars scenario_consts (scenario_port 32 15 0 0) =
     Inr (scenario_port 32 15 15 15, [Uart_write_wakeup])
   \<and> unat (uart_circ_chars_pending scenario_consts \<lparr>buf = replicate 16 0, head = 15, tail = 0\<rparr>)
     - unat (uart_circ_chars_pending scenario_consts \<lparr>buf = replicate 16 0, head = 15, tail = 15\<rparr>)
     = 15
   \<and> \<not> (15 :: nat) \<le> unat (UART_XMIT_SIZE scenario_consts) div 2"
  by (simp add: tiny_tx_chars_def scenario_port_def scenario_consts_def uart_circ_empty_def
      uart_circ_chars_pending_def tiny_stop_tx_def tx_loop.simps Let_def)

text \<open>
  C3: when the port, its state and the attached tty are live (and the timer object
  exists), one call of \<open>tiny_timer\<close> inserts the character \<open>TINY_DATA_CHARACTER\<close> into
  the flip buffer exactly once, pushes the flip buffer, then re-arms the timer at
  \<open>jiffies + DELAY_TIME\<close>, and only then runs \<open>tiny_tx_chars\<close> on the port; the events
  of the transmit drain (at most one wakeup) come last.
\<close>

theorem tiny_timer_live:
  assumes "state prt = Some st" and "port_tty st = Some tty" and "timer d = Some tm"
  shows "\<exists>prt1 ev2. tiny_tx_chars k prt = Inr (prt1, ev2)
           \<and> (ev2 = [] \<or> ev2 = [Uart_write_wakeup])
           \<and> tiny_timer k d (Some prt) =
               Inr (d\<lparr>timer := Some (tm\<lparr>expires := jiffies d + DELAY_TIME k,
                                          pending := True\<rparr>)\<rparr>,
                    Some prt1,
                    [Tty_insert_flip_char (tty_port tty) TINY_DATA_CHARACTER 0,
                     Tty_flip_buffer_push (tty_port tty),
                     Add_timer (jiffies d + DELAY_TIME k)] @ ev2)"
proof -
  from tiny_tx_chars_total [OF assms(1), of k] obtain p' ev2 where
    tx: "tiny_tx_chars k prt = Inr (p', ev2)" and ev2: "ev2 = [] \<or> ev2 = [Uart_write_wakeup]"
    by (elim exE conjE) (rule that, assumption, simp)
  have "tiny_timer k d (Some prt) =
               Inr (d\<lparr>timer := Some (tm\<lparr>expires := jiffies d + DELAY_TIME k,
                                          pending := True\<rparr>)\<rparr>,
                    Some p',
                    [Tty_insert_flip_char (tty_port tty) TINY_DATA_CHARACTER 0,
                     Tty_flip_buffer_push (tty_port tty),
                     Add_timer (jiffies d + DELAY_TIME k)] @ ev2)"
    unfolding DELAY_TIME_def using assms tx by (rule timer_callback_eq)
  with tx ev2 show ?thesis by blast
qed

theorem tiny_timer_live_witness:
  "\<exists>prt1 ev2. tiny_tx_chars scenario_consts (scenario_port 16 10 0 0) = Inr (prt1, ev2)
     \<and> (ev2 = [] \<or> ev2 = [Uart_write_wakeup])
     \<and> tiny_timer scenario_consts started_driver (Some (scenario_port 16 10 0 0)) =
         Inr (started_driver, Some prt1,
              [Tty_insert_flip_char 0 116 0, Tty_flip_buffer_push 0, Add_timer 1200] @ ev2)"
proof -
  let ?tty = "\<lparr>tty_port = 0\<rparr>"
  let ?st = "\<lparr>xmit = \<lparr>buf = replicate 16 0, head = 10, tail = 0\<rparr>, port_tty = Some ?tty\<rparr>"
  let ?tm = "\<lparr>expires = 1200, data = 4096, timer_function = Fn_tiny_timer, pending = True\<rparr>"
  have st: "state (scenario_port 16 10 0 0) = Some ?st" by (simp add: scenario_port_def)
  have tty: "port_tty ?st = Some ?tty" by simp
  have tm: "timer started_driver = Some ?tm" by (simp add: started_driver_def)
  show ?thesis
    using tiny_timer_live [OF st tty tm, of scenario_consts]
    by (simp add: started_driver_def scenario_consts_def DELAY_TIME_def
        TINY_DATA_CHARACTER_def)
qed

text \<open>
  C4: when the port pointer is NULL, or the port's state is NULL, or no tty is attached,
  \<open>tiny_timer\<close> returns normally with the driver and the port unchanged and without
  calling anything: no character inserted, no drain, no re-arming.
\<close>

theorem tiny_timer_stale:
  assumes "p = None \<or> (\<exists>prt. p = Some prt \<and>
             (state prt = None \<or> (\<exists>st. state prt = Some st \<and> port_tty st = None)))"
  shows "tiny_timer k d p = Inr (d, p, [])"
  using assms by (auto simp: tiny_timer_def)

theorem tiny_timer_stale_witness:
  "tiny_timer scenario_consts started_driver None = Inr (started_driver, None, [])
   \<and> tiny_timer scenario_consts started_driver
         (Some ((scenario_port 16 10 0 0)\<lparr>state := None\<rparr>))
       = Inr (started_driver, Some ((scenario_port 16 10 0 0)\<lparr>state := None\<rparr>), [])"
  using tiny_timer_stale [of None scenario_consts started_driver]
    tiny_timer_stale [of "Some ((scenario_port 16 10 0 0)\<lparr>state := None\<rparr>)"
      scenario_consts started_driver]
  by simp

text \<open>
  C5: with a character pending in \<open>x_char\<close>, \<open>tiny_tx_chars\<close> adds one to
  \<open>icount.tx\<close> (modulo \<open>2^32\<close>), clears \<open>x_char\<close> and returns; every other field of the
  port, among them the transmit buffer with its head, tail and contents, is unchanged,
  and nothing is signalled.
\<close>

theorem tiny_tx_chars_x_char:
  assumes "x_char p \<noteq> 0"
  shows "tiny_tx_chars k p = Inr (p\<lparr>icount_tx := icount_tx p + 1, x_char := 0\<rparr>, [])"
  using assms by (simp add: tiny_tx_chars_def)

theorem tiny_tx_chars_x_char_witness:
  "tiny_tx_chars scenario_consts ((scenario_port 16 10 0 7)\<lparr>x_char := 17\<rparr>)
     = Inr (scenario_port 16 10 0 8, [])"
  using tiny_tx_chars_x_char [of "(scenario_port 16 10 0 7)\<lparr>x_char := 17\<rparr>" scenario_consts]
  by (simp add: scenario_port_def)

text \<open>
  C6: \<open>tiny_startup\<close> calls \<open>kmalloc\<close> only when the timer pointer is NULL and reuses
  an existing timer object otherwise. When the allocation fails it returns \<open>-ENOMEM\<close>
  having done nothing else; in the other two cases it initialises and arms the timer
  and returns 0.
\<close>

theorem tiny_startup_alloc:
  "(timer d = Some tm \<longrightarrow>
      tiny_startup k alloc paddr d =
        (d\<lparr>timer := Some (tm\<lparr>pending := True, data := paddr,
                               expires := jiffies d + DELAY_TIME k,
                               timer_function := Fn_tiny_timer\<rparr>)\<rparr>,
         0, [Init_timer, Add_timer (jiffies d + DELAY_TIME k)]))
   \<and> (timer d = None \<and> alloc = None \<longrightarrow>
      tiny_startup k alloc paddr d = (d, - ENOMEM, [Kmalloc]))
   \<and> (timer d = None \<and> alloc = Some tm \<longrightarrow>
      tiny_startup k alloc paddr d =
        (d\<lparr>timer := Some (tm\<lparr>pending := True, data := paddr,
                               expires := jiffies d + DELAY_TIME k,
                               timer_function := Fn_tiny_timer\<rparr>)\<rparr>,
         0, [Kmalloc, Init_timer, Add_timer (jiffies d + DELAY_TIME k)]))"
  by (simp add: tiny_startup_eq DELAY_TIME_def ENOMEM_def)

theorem tiny_startup_alloc_witness:
  "tiny_startup scenario_consts None 4096 started_driver
     = (started_driver, 0, [Init_timer, Add_timer 1200])
   \<and> tiny_startup scenario_consts None 4096 loaded_driver = (loaded_driver, - 12, [Kmalloc])
   \<and> tiny_startup scenario_consts (Some fresh_timer) 4096 loaded_driver
     = (started_driver, 0, [Kmalloc, Init_timer, Add_timer 1200])"
  using tiny_startup_alloc
      [of started_driver
          "\<lparr>expires = 1200, data = 4096, timer_function = Fn_tiny_timer, pending = True\<rparr>"
          scenario_consts None 4096]
    tiny_startup_alloc [of loaded_driver fresh_timer scenario_consts None 4096]
    tiny_startup_alloc [of loaded_driver fresh_timer scenario_consts "Some fresh_timer" 4096]
  by (simp add: started_driver_def loaded_driver_def fresh_timer_def scenario_consts_def
      DELAY_TIME_def ENOMEM_def)

text \<open>
  C7 (as amended): when the timer object has been allocated, \<open>tiny_shutdown\<close> takes
  the timer off the queue and keeps the object (nothing is freed); if the timer was not
  pending, the driver state is unchanged.
\<close>

theorem tiny_shutdown_allocated:
  assumes "timer d = Some tm"
  shows "tiny_shutdown d = Inr (d\<lparr>timer := Some (tm\<lparr>pending := False\<rparr>)\<rparr>, [Del_timer])
         \<and> (\<not> pending tm \<longrightarrow> tiny_shutdown d = Inr (d, [Del_timer]))"
  using assms by (simp add: tiny_shutdown_def del_timer_def)

theorem tiny_shutdown_allocated_witness:
  "tiny_shutdown started_driver =
     Inr (\<lparr>timer = Some \<lparr>expires = 1200, data = 4096, timer_function = Fn_tiny_timer,
                          pending = False\<rparr>,
           jiffies = 1000\<rparr>, [Del_timer])
   \<and> tiny_shutdown \<lparr>timer = Some fresh_timer, jiffies = 1000\<rparr> =
     Inr (\<lparr>timer = Some fresh_timer, jiffies = 1000\<rparr>, [Del_timer])"
  using tiny_shutdown_allocated
      [of started_driver
          "\<lparr>expires = 1200, data = 4096, timer_function = Fn_tiny_timer, pending = True\<rparr>"]
    tiny_shutdown_allocated [of "\<lparr>timer = Some fresh_timer, jiffies = 1000\<rparr>" fresh_timer]
  by (simp add: started_driver_def fresh_timer_def)

text \<open>
  When the timer object was never allocated, \<open>tiny_shutdown\<close> hands the NULL pointer
  to \<open>del_timer\<close>.
\<close>

theorem tiny_shutdown_unallocated_counterexample:
  "tiny_shutdown loaded_driver = Inl Null_deref"
  by (simp add: tiny_shutdown_def del_timer_def loaded_driver_def)

text \<open>
  C8: the claim is that module exit frees a timer allocated by an earlier startup. In
  \<open>tiny_exit\<close> the test before \<open>kfree\<close> is \<open>if (!timer)\<close>: after a successful startup
  the timer object exists, and \<open>tiny_exit\<close> does not call \<open>kfree\<close> at all.
\<close>

theorem tiny_exit_keeps_timer:
  "tiny_startup scenario_consts (Some fresh_timer) 4096 loaded_driver
     = (started_driver, 0, [Kmalloc, Init_timer, Add_timer 1200])
   \<and> tiny_exit started_driver
     = (started_driver, [Uart_remove_one_port, Uart_unregister_driver])"
  by (simp add: tiny_startup_eq tiny_exit_def started_driver_def loaded_driver_def
      fresh_timer_def scenario_consts_def)

text \<open>
  C9 (as amended): both \<open>tiny_startup\<close>, when it succeeds, and \<open>tiny_timer\<close>, on a
  live port, arm the timer at \<open>jiffies + HZ * 2\<close>: the delay is \<open>2 * HZ\<close> ticks, that is
  two seconds, not two ticks.
\<close>

theorem delay_two_seconds:
  "(timer d \<noteq> None \<or> alloc \<noteq> None \<longrightarrow>
      (\<exists>tm ev0. tiny_startup k alloc paddr d =
          (d\<lparr>timer := Some tm\<rparr>, 0, ev0 @ [Init_timer, Add_timer (jiffies d + HZ k * 2)])
        \<and> expires tm = jiffies d + HZ k * 2 \<and> pending tm))
   \<and> (state prt = Some st \<and> port_tty st = Some tty \<and> timer d = Some tm0 \<longrightarrow>
      (\<exists>tm prt1 ev2. tiny_timer k d (Some prt) =
          Inr (d\<lparr>timer := Some tm\<rparr>, Some prt1,
               [Tty_insert_flip_char (tty_port tty) TINY_DATA_CHARACTER 0,
                Tty_flip_buffer_push (tty_port tty),
                Add_timer (jiffies d + HZ k * 2)] @ ev2)
        \<and> expires tm = jiffies d + HZ k * 2 \<and> pending tm))"
proof (intro conjI impI)
  assume "timer d \<noteq> None \<or> alloc \<noteq> None"
  then show "\<exists>tm ev0. tiny_startup k alloc paddr d =
          (d\<lparr>timer := Some tm\<rparr>, 0, ev0 @ [Init_timer, Add_timer (jiffies d + HZ k * 2)])
        \<and> expires tm = jiffies d + HZ k * 2 \<and> pending tm"
    by (cases "timer d"; cases alloc) (auto simp: tiny_startup_eq intro: exI [of _ "[Kmalloc]"])
next
  assume a: "state prt = Some st \<and> port_tty st = Some tty \<and> timer d = Some tm0"
  then obtain prt1 ev2 where tx: "tiny_tx_chars k prt = Inr (prt1, ev2)"
    using tiny_tx_chars_total [of prt st k] by blast
  from a have "tiny_timer k d (Some prt) =
      Inr (d\<lparr>timer := Some (tm0\<lparr>expires := jiffies d + HZ k * 2, pending := True\<rparr>)\<rparr>,
                Some prt1,
                [Tty_insert_flip_char (tty_port tty) TINY_DATA_CHARACTER 0,
                 Tty_flip_buffer_push (tty_port tty),
                 Add_timer (jiffies d + HZ k * 2)] @ ev2)"
    using timer_callback_eq [of prt st tty d tm0 k prt1 ev2] tx by simp
  then show "\<exists>tm prt1 ev2. tiny_timer k d (Some prt) =
          Inr (d\<lparr>timer := Some tm\<rparr>, Some prt1,
               [Tty_insert_flip_char (tty_port tty) TINY_DATA_CHARACTER 0,
                Tty_flip_buffer_push (tty_port tty),
                Add_timer (jiffies d + HZ k * 2)] @ ev2)
        \<and> expires tm = jiffies d + HZ k * 2 \<and> pending tm"
    by (intro exI [of _ "tm0\<lparr>expires := jiffies d + HZ k * 2, pending := True\<rparr>"]
        exI [of _ prt1] exI [of _ ev2]) simp
qed

theorem delay_two_seconds_witness:
  "(\<exists>tm ev0. tiny_startup scenario_consts (Some fresh_timer) 4096 loaded_driver =
       (loaded_driver\<lparr>timer := Some tm\<rparr>, 0, ev0 @ [Init_timer, Add_timer 1200])
     \<and> expires tm = 1200 \<and> pending tm)
   \<and> (\<exists>tm prt1 ev2. tiny_timer scenario_consts started_driver (Some (scenario_port 16 10 0 0)) =
       Inr (started_driver\<lparr>timer := Some tm\<rparr>, Some prt1,
            [Tty_insert_flip_char 0 116 0, Tty_flip_buffer_push 0, Add_timer 1200] @ ev2)
     \<and> expires tm = 1200 \<and> pending tm)"
  using delay_two_seconds
      [of loaded_driver "Some fresh_timer" scenario_consts 4096
          "scenario_port 16 10 0 0"
          "\<lparr>xmit = \<lparr>buf = replicate 16 0, head = 10, tail = 0\<rparr>,
            port_tty = Some \<lparr>tty_port = 0\<rparr>\<rparr>"
          "\<lparr>tty_port = 0\<rparr>" fresh_timer]
    delay_two_seconds
      [of started_driver None scenario_consts 4096
          "scenario_port 16 10 0 0"
          "\<lparr>xmit = \<lparr>buf = replicate 16 0, head = 10, tail = 0\<rparr>,
            port_tty = Some \<lparr>tty_port = 0\<rparr>\<rparr>"
          "\<lparr>tty_port = 0\<rparr>"
          "\<lparr>expires = 1200, data = 4096, timer_function = Fn_tiny_timer, pending = True\<rparr>"]
  by (simp add: loaded_driver_def started_driver_def scenario_consts_def scenario_port_def
      TINY_DATA_CHARACTER_def)

text \<open>
  With 100 ticks per second, a startup at tick 1000 arms the timer for tick 1200.
\<close>

theorem delay_two_ticks_counterexample:
  "tiny_startup scenario_consts None 4096 \<lparr>timer = Some fresh_timer, jiffies = 1000\<rparr>
     = (started_driver, 0, [Init_timer, Add_timer 1200])
   \<and> HZ scenario_consts = 100
   \<and> (1200 :: 64 word) \<noteq> 1000 + 2"
  by (simp add: tiny_startup_eq started_driver_def fresh_timer_def scenario_consts_def)

text \<open>
  C10: for every port, whatever its transmit buffer holds, \<open>tiny_tx_empty\<close> answers the
  constant 0.
\<close>

theorem tiny_tx_empty_zero: "tiny_tx_empty p = 0"
  by (simp add: tiny_tx_empty_def)

end
